theory Spec2Isabelle
  imports Complex_Main "HOL-Library.Sublist" "HOL-Library.Word"
begin

section \<open>Python strings\<close>

text \<open>
  A Python \<open>str\<close> is modelled as a \<open>string\<close> whose characters are the code points
  below 256. The query templates of the dashboard are plain ASCII; the apostrophe, which
  cannot end a string literal of HOL, is written \<open>sq\<close>.
\<close>

abbreviation sq :: string where
  "sq \<equiv> [CHR 0x27]"

text \<open>
  \<open>str.isspace\<close> on one code point below 256: tab, line feed, vertical tab, form feed,
  carriage return, the four separators 0x1C..0x1F, space, NEL and the no-break space.
\<close>

definition py_isspace :: "char \<Rightarrow> bool" where
  "py_isspace c = (c \<in> set [CHR 0x09, CHR 0x0A, CHR 0x0B, CHR 0x0C, CHR 0x0D,
     CHR 0x1C, CHR 0x1D, CHR 0x1E, CHR 0x1F, CHR 0x20, CHR 0x85, CHR 0xA0])"

text \<open>
  \<open>s.split()\<close> with no separator: runs of whitespace separate the items, and leading and
  trailing whitespace gives no empty item.
\<close>

function split :: "string \<Rightarrow> string list" where
  "split s =
     (let t = dropWhile py_isspace s
      in if t = [] then []
         else takeWhile (\<lambda>c. \<not> py_isspace c) t # split (dropWhile (\<lambda>c. \<not> py_isspace c) t))"
  by pat_completeness auto

termination split
proof (relation "measure length")
  show "wf (measure length)"
    by simp
next
  fix s t :: string
  assume t: "t = dropWhile py_isspace s" and ne: "t \<noteq> []"
  then obtain c cs where cons: "dropWhile py_isspace s = c # cs"
    by (cases "dropWhile py_isspace s") auto
  have "\<not> py_isspace c"
    using hd_dropWhile [of py_isspace s] cons by simp
  then have "length (dropWhile (\<lambda>c. \<not> py_isspace c) (c # cs)) \<le> length cs"
    by (simp add: length_dropWhile_le)
  also have "length cs < length (dropWhile py_isspace s)"
    by (simp add: cons)
  also have "\<dots> \<le> length s"
    by (rule length_dropWhile_le)
  finally show "(dropWhile (\<lambda>c. \<not> py_isspace c) t, s) \<in> measure length"
    by (simp add: t cons)
qed

declare split.simps [simp del]

text \<open>The exceptions of Python that the modelled code can raise.\<close>

datatype exn = IndexError

text \<open>\<open>xs[0]\<close>: the first item, or IndexError on the empty list.\<close>

definition item0 :: "'a list \<Rightarrow> exn + 'a" where
  "item0 xs = (case xs of [] \<Rightarrow> Inl IndexError | x # _ \<Rightarrow> Inr x)"

text \<open>\<open>sep.join(xs)\<close>.\<close>

fun join :: "string \<Rightarrow> string list \<Rightarrow> string" where
  "join sep [] = []"
| "join sep [x] = x"
| "join sep (x # y # ys) = x @ sep @ join sep (y # ys)"

text \<open>
  \<open>s.lower()\<close>, on the ASCII letters (the platform tokens are \<open>Android\<close> and \<open>iOS\<close>);
  every other character is kept.
\<close>

definition lower_char :: "char \<Rightarrow> char" where
  "lower_char c =
     (case map_of (zip ''ABCDEFGHIJKLMNOPQRSTUVWXYZ'' ''abcdefghijklmnopqrstuvwxyz'') c of
        None \<Rightarrow> c
      | Some l \<Rightarrow> l)"

definition lower :: "string \<Rightarrow> string" where
  "lower s = map lower_char s"

text \<open>\<open>str(n)\<close> for an \<open>int\<close>: the decimal digits, after a minus sign when negative.\<close>

definition digit_char :: "nat \<Rightarrow> char" where
  "digit_char d = ''0123456789'' ! d"

fun digits :: "nat \<Rightarrow> string" where
  "digits n = (if n < 10 then [digit_char n] else digits (n div 10) @ [digit_char (n mod 10)])"

declare digits.simps [simp del]

definition str :: "int \<Rightarrow> string" where
  "str i = (if i < 0 then CHR ''-'' # digits (nat (- i)) else digits (nat i))"

section \<open>The Condition Builder\<close>

text \<open>
  A time period is the dict \<open>{'start_date': ..., 'end_date': ...}\<close> that the sidebar form
  appends to the session's list; both values are strings made by \<open>format_datetime\<close>.
\<close>

record time_period =
  start_date :: string
  end_date :: string

text \<open>\<open>format_datetime\<close> of app.py, on the texts of the date and of the time.\<close>

definition format_datetime :: "string \<Rightarrow> string \<Rightarrow> string" where
  "format_datetime date time = date @ '' '' @ time"

text \<open>
  app.py, \<open>build_time_periods_condition\<close>: the body of the loop. The date given to
  \<open>toDate\<close> is the first whitespace-separated item of the timestamp, so a timestamp with
  no item raises IndexError.
\<close>

definition condition :: "time_period \<Rightarrow> exn + string" where
  "condition period =
     (case item0 (split (start_date period)) of
        Inl e \<Rightarrow> Inl e
      | Inr sd \<Rightarrow>
          (case item0 (split (end_date period)) of
             Inl e \<Rightarrow> Inl e
           | Inr ed \<Rightarrow> Inr (
     ''\<newline>'' @
     ''        (created_day BETWEEN toDate('' @ sq @ sd @ sq @ '') AND toDate('' @ sq @ ed @ sq @ '')\<newline>'' @
     ''        AND created_date >= toDateTime('' @ sq @ start_date period @ sq @ '')\<newline>'' @
     ''        AND created_date <= toDateTime('' @ sq @ end_date period @ sq @ ''))\<newline>'' @
     ''        '')))"

text \<open>The loop: one condition per period, in order; the first exception ends it.\<close>

fun conditions :: "time_period list \<Rightarrow> exn + string list" where
  "conditions [] = Inr []"
| "conditions (period # rest) =
     (case condition period of
        Inl e \<Rightarrow> Inl e
      | Inr c \<Rightarrow> (case conditions rest of Inl e \<Rightarrow> Inl e | Inr cs \<Rightarrow> Inr (c # cs)))"

definition build_time_periods_condition :: "time_period list \<Rightarrow> exn + string" where
  "build_time_periods_condition time_periods =
     (case conditions time_periods of
        Inl e \<Rightarrow> Inl e
      | Inr cs \<Rightarrow> Inr (join '' OR '' cs))"

text \<open>
  utils/db_connector.py, \<open>build_time_periods_condition\<close>: the whole timestamp goes to
  \<open>toDate\<close> too, nothing is split and nothing can raise.
\<close>

definition connector_condition :: "time_period \<Rightarrow> string" where
  "connector_condition period =
     ''\<newline>'' @
     ''        (created_day BETWEEN toDate('' @ sq @ start_date period @ sq @ '') AND toDate('' @ sq @ end_date period @ sq @ '')\<newline>'' @
     ''        AND created_date >= toDateTime('' @ sq @ start_date period @ sq @ '')\<newline>'' @
     ''        AND created_date <= toDateTime('' @ sq @ end_date period @ sq @ ''))\<newline>'' @
     ''        ''"

definition connector_build_time_periods_condition :: "time_period list \<Rightarrow> string" where
  "connector_build_time_periods_condition time_periods =
     join '' OR '' (map connector_condition time_periods)"

section \<open>The Query Builders\<close>

text \<open>app.py, lines 135 to 144 of the template: the eligible-users branch.\<close>

definition eligible_users :: "string \<Rightarrow> string \<Rightarrow> int \<Rightarrow> string" where
  "eligible_users table_prefix time_periods_condition min_level =
     ''    WITH eligible_users AS (\<newline>'' @
     ''        SELECT DISTINCT\<newline>'' @
     ''            r.account_id,\<newline>'' @
     ''            r.created_day\<newline>'' @
     ''        FROM \<newline>'' @
     ''            '' @ table_prefix @ ''.f_sdk_retention_data r\<newline>'' @
     ''        WHERE \<newline>'' @
     ''            ('' @ time_periods_condition @ '')\<newline>'' @
     ''            AND r.level >= '' @ str min_level @ '' -- Use configurable minimum level\<newline>'' @
     ''    ),\<newline>''"

text \<open>Lines 147 to 157: the event-participants branch.\<close>

definition event_participants :: "string \<Rightarrow> string \<Rightarrow> string \<Rightarrow> int \<Rightarrow> string" where
  "event_participants table_prefix time_periods_condition event_name min_level =
     ''    event_participants AS (\<newline>'' @
     ''        SELECT DISTINCT\<newline>'' @
     ''            e.account_id,\<newline>'' @
     ''            e.created_day\<newline>'' @
     ''        FROM \<newline>'' @
     ''            '' @ table_prefix @ ''.f_sdk_event_data e\<newline>'' @
     ''        WHERE \<newline>'' @
     ''            ('' @ time_periods_condition @ '')\<newline>'' @
     ''            AND e.event_name = '' @ sq @ event_name @ sq @ ''\<newline>'' @
     ''            AND e.level >= '' @ str min_level @ '' -- Use configurable minimum level\<newline>'' @
     ''    ),\<newline>''"

text \<open>Lines 160 to 174: every eligible user labelled a participant or not.\<close>

definition user_participation :: "string" where
  "user_participation =
     ''    user_participation AS (\<newline>'' @
     ''        SELECT\<newline>'' @
     ''            eu.account_id,\<newline>'' @
     ''            eu.created_day,\<newline>'' @
     ''            CASE \<newline>'' @
     ''                WHEN ep.account_id IS NOT NULL THEN '' @ sq @ ''Event Participant'' @ sq @ ''\<newline>'' @
     ''                ELSE '' @ sq @ ''Non-Participant'' @ sq @ ''\<newline>'' @
     ''            END AS participation_group\<newline>'' @
     ''        FROM \<newline>'' @
     ''            eligible_users eu\<newline>'' @
     ''        LEFT JOIN \<newline>'' @
     ''            event_participants ep\<newline>'' @
     ''            ON eu.account_id = ep.account_id\<newline>'' @
     ''            AND eu.created_day = ep.created_day\<newline>'' @
     ''    ),\<newline>''"

text \<open>Lines 177 to 187: the distinct users of each day and group.\<close>

definition daily_active_users_by_group :: "string" where
  "daily_active_users_by_group =
     ''    daily_active_users_by_group AS (\<newline>'' @
     ''        SELECT\<newline>'' @
     ''            created_day,\<newline>'' @
     ''            participation_group,\<newline>'' @
     ''            COUNT(DISTINCT account_id) AS group_total_users\<newline>'' @
     ''        FROM \<newline>'' @
     ''            user_participation\<newline>'' @
     ''        GROUP BY\<newline>'' @
     ''            created_day,\<newline>'' @
     ''            participation_group\<newline>'' @
     ''    ),\<newline>''"

text \<open>Lines 190 to 220: the purchase aggregates of each day and group.\<close>

definition iap_metrics :: "string \<Rightarrow> string \<Rightarrow> int \<Rightarrow> string" where
  "iap_metrics table_prefix time_periods_condition min_level =
     ''    iap_metrics AS (\<newline>'' @
     ''        SELECT\<newline>'' @
     ''            i.created_day,\<newline>'' @
     ''            up.participation_group,\<newline>'' @
     ''            \<newline>'' @
     ''            -- Basic metrics\<newline>'' @
     ''            COUNT(DISTINCT i.account_id) AS paying_users,\<newline>'' @
     ''            COUNT(DISTINCT i.uuid) AS purchase_count,\<newline>'' @
     ''            SUM(i.price_usd) AS total_revenue,\<newline>'' @
     ''            \<newline>'' @
     ''            -- Percentiles for revenue\<newline>'' @
     ''            quantile(0.25)(i.price_usd) AS revenue_25th_percentile,\<newline>'' @
     ''            quantile(0.50)(i.price_usd) AS revenue_median,\<newline>'' @
     ''            quantile(0.75)(i.price_usd) AS revenue_75th_percentile,\<newline>'' @
     ''            quantile(0.90)(i.price_usd) AS revenue_90th_percentile,\<newline>'' @
     ''            \<newline>'' @
     ''            -- First purchase conversion metrics\<newline>'' @
     ''            SUM(IF(i.in_app_count = 1, 1, 0)) AS first_time_payers\<newline>'' @
     ''        FROM \<newline>'' @
     ''            '' @ table_prefix @ ''.f_sdk_in_app_data i\<newline>'' @
     ''        JOIN\<newline>'' @
     ''            user_participation up \<newline>'' @
     ''            ON i.account_id = up.account_id \<newline>'' @
     ''            AND i.created_day = up.created_day\<newline>'' @
     ''        WHERE\<newline>'' @
     ''            ('' @ time_periods_condition @ '')\<newline>'' @
     ''            AND i.level >= '' @ str min_level @ '' -- Use configurable minimum level\<newline>'' @
     ''        GROUP BY\<newline>'' @
     ''            i.created_day,\<newline>'' @
     ''            up.participation_group\<newline>'' @
     ''    )\<newline>''"

text \<open>Lines 223 to 251: the final SELECT with the four derived ratios.\<close>

definition final_select :: "string" where
  "final_select =
     ''    SELECT\<newline>'' @
     ''        im.created_day,\<newline>'' @
     ''        im.participation_group,\<newline>'' @
     ''        da.group_total_users,\<newline>'' @
     ''        im.paying_users,\<newline>'' @
     ''        im.purchase_count,\<newline>'' @
     ''        im.total_revenue,\<newline>'' @
     ''        im.revenue_25th_percentile,\<newline>'' @
     ''        im.revenue_median,\<newline>'' @
     ''        im.revenue_75th_percentile,\<newline>'' @
     ''        im.revenue_90th_percentile,\<newline>'' @
     ''        im.first_time_payers,\<newline>'' @
     ''        -- Conversion rate: first time payers divided by THAT GROUP'' @ sq @ ''S total users\<newline>'' @
     ''        im.first_time_payers / nullIf(da.group_total_users, 0) AS conversion_rate,\<newline>'' @
     ''        -- Pay rate: paying users divided by THAT GROUP'' @ sq @ ''S total users\<newline>'' @
     ''        im.paying_users / nullIf(da.group_total_users, 0) AS pay_rate,\<newline>'' @
     ''        -- ARPU: Total Revenue / Total Users in the group\<newline>'' @
     ''        im.total_revenue / nullIf(da.group_total_users, 0) AS ARPU,\<newline>'' @
     ''        -- ARPPU: Total Revenue / Paying Users\<newline>'' @
     ''        im.total_revenue / nullIf(im.paying_users, 0) AS ARPPU\<newline>'' @
     ''    FROM\<newline>'' @
     ''        iap_metrics im\<newline>'' @
     ''    JOIN\<newline>'' @
     ''        daily_active_users_by_group da\<newline>'' @
     ''        ON im.created_day = da.created_day\<newline>'' @
     ''        AND im.participation_group = da.participation_group\<newline>'' @
     ''    ORDER BY\<newline>'' @
     ''        im.created_day,\<newline>'' @
     ''        im.participation_group\<newline>''"

text \<open>
  The whole f-string of \<open>get_event_participation_query\<close>: the text after the opening
  quotes, the six parts above with the comment lines between them, and the indentation
  before the closing quotes.
\<close>

definition participation_template :: "string \<Rightarrow> string \<Rightarrow> string \<Rightarrow> int \<Rightarrow> string" where
  "participation_template table_prefix time_periods_condition event_name min_level =
     ''\<newline>'' @
     ''    -- Identify all eligible users with the specified minimum level from retention data\<newline>'' @
     eligible_users table_prefix time_periods_condition min_level @
     ''\<newline>'' @
     ''    -- Identify event participants\<newline>'' @
     event_participants table_prefix time_periods_condition event_name min_level @
     ''\<newline>'' @
     ''    -- Classify users as participants or non-participants\<newline>'' @
     user_participation @
     ''\<newline>'' @
     ''    -- Get total active users per day BY GROUP as denominator for participation rate\<newline>'' @
     daily_active_users_by_group @
     ''\<newline>'' @
     ''    -- Calculate IAP metrics combining with in_app data\<newline>'' @
     iap_metrics table_prefix time_periods_condition min_level @
     ''\<newline>'' @
     ''    -- Final result with ARPU and ARPPU calculations\<newline>'' @
     final_select @
     ''    ''"

text \<open>The f-string of \<open>get_event_engagement_query\<close>, lines 263 to 285.\<close>

definition engagement_template :: "string \<Rightarrow> string \<Rightarrow> string \<Rightarrow> int \<Rightarrow> string" where
  "engagement_template table_prefix time_periods_condition event_name min_level =
     ''\<newline>'' @
     ''    WITH event_engagement AS (\<newline>'' @
     ''        SELECT\<newline>'' @
     ''            created_day,\<newline>'' @
     ''            COUNT(DISTINCT account_id) AS unique_users,\<newline>'' @
     ''            COUNT(*) AS total_interactions,\<newline>'' @
     ''            COUNT(*) / COUNT(DISTINCT account_id) AS avg_interactions_per_user,\<newline>'' @
     ''            COUNT(DISTINCT session_id) AS unique_sessions,\<newline>'' @
     ''            COUNT(*) / COUNT(DISTINCT session_id) AS avg_interactions_per_session\<newline>'' @
     ''        FROM\<newline>'' @
     ''            '' @ table_prefix @ ''.f_sdk_event_data\<newline>'' @
     ''        WHERE\<newline>'' @
     ''            ('' @ time_periods_condition @ '')\<newline>'' @
     ''            AND event_name = '' @ sq @ event_name @ sq @ ''\<newline>'' @
     ''            AND level >= '' @ str min_level @ '' -- Use configurable minimum level\<newline>'' @
     ''        GROUP BY\<newline>'' @
     ''            created_day\<newline>'' @
     ''        ORDER BY\<newline>'' @
     ''            created_day\<newline>'' @
     ''    )\<newline>'' @
     ''    \<newline>'' @
     ''    SELECT * FROM event_engagement\<newline>'' @
     ''    ''"

text \<open>app.py, \<open>get_event_participation_query\<close>; an exception of the Condition Builder goes through.\<close>

definition get_event_participation_query ::
  "string \<Rightarrow> time_period list \<Rightarrow> string \<Rightarrow> int \<Rightarrow> exn + string" where
  "get_event_participation_query event_name time_periods platform min_level =
     (let table_prefix = ''com_fc_goods_sort_matching_puzzle_triplemaster_'' @ lower platform
      in case build_time_periods_condition time_periods of
           Inl e \<Rightarrow> Inl e
         | Inr time_periods_condition \<Rightarrow>
             Inr (participation_template table_prefix time_periods_condition event_name min_level))"

text \<open>app.py, \<open>get_event_engagement_query\<close>.\<close>

definition get_event_engagement_query ::
  "string \<Rightarrow> time_period list \<Rightarrow> string \<Rightarrow> int \<Rightarrow> exn + string" where
  "get_event_engagement_query event_name time_periods platform min_level =
     (let table_prefix = ''com_fc_goods_sort_matching_puzzle_triplemaster_'' @ lower platform
      in case build_time_periods_condition time_periods of
           Inl e \<Rightarrow> Inl e
         | Inr time_periods_condition \<Rightarrow>
             Inr (engagement_template table_prefix time_periods_condition event_name min_level))"

section \<open>The derived ratios of the participation query\<close>

text \<open>
  The final SELECT computes its four ratios in the engine, each as
  \<open>numerator / nullIf(denominator, 0)\<close>. The two built-ins are modelled as the engine
  defines them: \<open>nullIf(x, y)\<close> is NULL when \<open>x = y\<close> and \<open>x\<close> otherwise; \<open>/\<close> is
  NULL on a NULL operand, is the quotient on a non-zero divisor (taken exactly, as a
  rational) and is an infinity or NaN, never an error, on a zero divisor.
\<close>

datatype sql_number = Null | Num rat | NotFinite

definition nullIf :: "int \<Rightarrow> int \<Rightarrow> int option" where
  "nullIf x y = (if x = y then None else Some x)"






section \<open>The Query Executor\<close>

text \<open>
  A pandas DataFrame as \<open>execute_query\<close> builds it: the column labels and the rows, in
  which a cell that the engine did not give is \<open>None\<close>. The engine client is a function
  from the query text to the rows it returns, or to the message of the exception it raises.
\<close>

record ('l, 'c) frame =
  columns :: "'l list"
  data :: "'c option list list"

text \<open>\<open>pd.DataFrame()\<close>\<close>

definition empty_frame :: "('l, 'c) frame" where
  "empty_frame = \<lparr>columns = [], data = []\<rparr>"

text \<open>\<open>df.empty\<close>: an axis of length 0.\<close>

definition frame_empty :: "('l, 'c) frame \<Rightarrow> bool" where
  "frame_empty df = (columns df = [] \<or> data df = [])"

text \<open>
  \<open>pd.DataFrame(result, columns=column_names)\<close> on a list of rows: the width of the data
  is the length of its longest row, a shorter row is filled up with missing cells, and
  pandas raises ValueError when the number of labels is not that width. With no row at all
  the frame has the labels and is empty.
\<close>

definition DataFrame :: "'c list list \<Rightarrow> 'l list \<Rightarrow> string + ('l, 'c) frame" where
  "DataFrame result column_names =
     (let width = foldr max (map length result) 0
      in if result = [] \<or> length column_names = width
         then Inr \<lparr>columns = column_names,
                   data = map (\<lambda>row. map Some row @ replicate (width - length row) None) result\<rparr>
         else Inl (str (int (length column_names)) @ '' columns passed, passed data had '' @
                   str (int width) @ '' columns''))"

text \<open>
  app.py, \<open>execute_query\<close>, on a call that reaches the engine. The result is the list of
  messages shown with \<open>st.error\<close> and the returned value, \<open>None\<close> or a DataFrame. The
  client parameter is named \<open>_client\<close>, so the cache decorator does not hash it; the
  decorator only replays this result for a repeated call and is left out.
\<close>

definition execute_query ::
  "(string \<Rightarrow> string + 'c list list) \<Rightarrow> string \<Rightarrow> string \<Rightarrow> string list \<times> (string, 'c) frame option" where
  "execute_query client query platform =
     (case client query of
        Inl e \<Rightarrow> ([''Query execution failed for '' @ platform @ '': '' @ e], None)
      | Inr result \<Rightarrow>
          if result = [] then ([], Some empty_frame)
          else
            (let column_names = map (\<lambda>i. ''column_'' @ str (int i)) [0..<length (hd result)]
             in case DataFrame result column_names of
                  Inl e \<Rightarrow> ([''Query execution failed for '' @ platform @ '': '' @ e], None)
                | Inr df \<Rightarrow> ([], Some df)))"

section \<open>The Metrics Summarizer\<close>

text \<open>
  The participation table after the main flow has named its fifteen columns, one record
  per row. The counts are int64, as pandas holds a column of integers: 64-bit words read
  as signed numbers, whose sums wrap around. The revenues are exact rationals, and the four
  ratios may be NULL. A table is \<open>None\<close> or a list of rows, empty when it has no row.
\<close>

record participation_row =
  created_day :: string
  participation_group :: string
  group_total_users :: "64 word"
  paying_users :: "64 word"
  purchase_count :: "64 word"
  total_revenue :: rat
  revenue_25th_percentile :: rat
  revenue_median :: rat
  revenue_75th_percentile :: rat
  revenue_90th_percentile :: rat
  first_time_payers :: "64 word"
  conversion_rate :: sql_number
  pay_rate :: sql_number
  ARPU :: sql_number
  ARPPU :: sql_number

text \<open>The engagement table, with its six named columns.\<close>

record engagement_row =
  created_day :: string
  unique_users :: "64 word"
  total_interactions :: "64 word"
  avg_interactions_per_user :: rat
  unique_sessions :: "64 word"
  avg_interactions_per_session :: rat

text \<open>
  app.py, \<open>calculate_overall_participation_rate\<close>. The two sums are int64 sums; the
  comparison and the division read them as signed numbers, and the division is the true
  division of Python, taken exactly. On rows of this type nothing in the \<open>try\<close> block
  raises, so the \<open>except\<close> branch has no case here.
\<close>

definition calculate_overall_participation_rate :: "participation_row list option \<Rightarrow> rat" where
  "calculate_overall_participation_rate df =
     (case df of
        None \<Rightarrow> 0
      | Some rows \<Rightarrow>
          if rows = [] then 0
          else
            (let participants = sum_list (map group_total_users
                   (filter (\<lambda>r. participation_group r = ''Event Participant'') rows));
                 total_users = sum_list (map group_total_users rows)
             in if sint total_users > 0
                then of_int (sint participants) / of_int (sint total_users)
                else 0))"

text \<open>app.py, \<open>calculate_overall_revenue\<close>.\<close>

definition calculate_overall_revenue :: "participation_row list option \<Rightarrow> rat" where
  "calculate_overall_revenue df =
     (case df of
        None \<Rightarrow> 0
      | Some rows \<Rightarrow>
          if rows = [] then 0
          else
            (let participant_revenue = sum_list (map total_revenue
                   (filter (\<lambda>r. participation_group r = ''Event Participant'') rows))
             in participant_revenue))"

text \<open>
  app.py, lines 518 to 521: the total engagement of the main flow, 0 or the int64 sum of
  the column, read as a signed number.
\<close>

definition total_engagement :: "engagement_row list option \<Rightarrow> int" where
  "total_engagement engagement_df =
     (case engagement_df of
        None \<Rightarrow> 0
      | Some rows \<Rightarrow>
          if rows = [] then 0 else sint (sum_list (map total_interactions rows)))"

section \<open>Measures on query text\<close>

text \<open>The number of positions of a text at which a pattern starts.\<close>

fun occurrences :: "string \<Rightarrow> string \<Rightarrow> nat" where
  "occurrences sub [] = 0"
| "occurrences sub (c # cs) = (if prefix sub (c # cs) then 1 else 0) + occurrences sub cs"

text \<open>
  Reading a text from nesting depth \<open>d\<close>: the number of parenthesized groups closed at the
  top level, when every parenthesis is matched and the text ends at depth 0.
\<close>

fun groups_from :: "nat \<Rightarrow> string \<Rightarrow> nat option" where
  "groups_from d [] = (if d = 0 then Some 0 else None)"
| "groups_from d (c # cs) =
     (if c = CHR ''('' then groups_from (Suc d) cs
      else if c = CHR '')'' then
        (case d of
           0 \<Rightarrow> None
         | Suc d' \<Rightarrow> map_option (\<lambda>n. if d' = 0 then Suc n else n) (groups_from d' cs))
      else groups_from d cs)"

text \<open>
  The top level of a text: what is left when the content of every outermost pair of
  parentheses is removed.
\<close>

fun top_level :: "nat \<Rightarrow> string \<Rightarrow> string" where
  "top_level d [] = []"
| "top_level d (c # cs) =
     (if c = CHR ''('' then (if d = 0 then c # top_level (Suc d) cs else top_level (Suc d) cs)
      else if c = CHR '')'' then (if d \<le> 1 then c # top_level 0 cs else top_level (d - 1) cs)
      else if d = 0 then c # top_level d cs else top_level d cs)"

text \<open>The top level of one condition: its outer parentheses between the indentation.\<close>

abbreviation skeleton :: string where
  "skeleton \<equiv> ''\<newline>        ()\<newline>        ''"

text \<open>
  The timestamps of the time periods: digits, hyphens, colons, dots and spaces, not only
  spaces. Every \<open>date time\<close> text of \<open>format_datetime\<close> is one.
\<close>

definition timestamp_char :: "char \<Rightarrow> bool" where
  "timestamp_char c = (c \<in> set ''0123456789-:. '')"

definition is_timestamp :: "string \<Rightarrow> bool" where
  "is_timestamp s = (list_all timestamp_char s \<and> \<not> list_all (\<lambda>c. c = CHR '' '') s)"

text \<open>A text of one item: not empty and free of whitespace.\<close>

definition single_item :: "string \<Rightarrow> bool" where
  "single_item s = (s \<noteq> [] \<and> \<not> list_ex py_isspace s)"

text \<open>The number of time clauses of a text: one per \<open>created_day BETWEEN toDate(\<close>.\<close>

definition time_clauses :: "string \<Rightarrow> nat" where
  "time_clauses s = occurrences ''created_day BETWEEN toDate('' s"

text \<open>
  The text of one condition, on the two dates and the two timestamps put in it; both
  Condition Builders produce it. A plain text has no parenthesis and no capital O, and a
  well-formed condition starts on a new line, ends in a space, has no capital O and is one
  balanced group at the top level.
\<close>

definition clause_text :: "string \<Rightarrow> string \<Rightarrow> string \<Rightarrow> string \<Rightarrow> string" where
  "clause_text sd ed s e =
     ''\<newline>'' @
     ''        (created_day BETWEEN toDate('' @ sq @ sd @ sq @ '') AND toDate('' @ sq @ ed @ sq @ '')\<newline>'' @
     ''        AND created_date >= toDateTime('' @ sq @ s @ sq @ '')\<newline>'' @
     ''        AND created_date <= toDateTime('' @ sq @ e @ sq @ ''))\<newline>'' @
     ''        ''"

definition plain :: "string \<Rightarrow> bool" where
  "plain s = (CHR ''('' \<notin> set s \<and> CHR '')'' \<notin> set s \<and> CHR ''O'' \<notin> set s)"

definition clause_ok :: "string \<Rightarrow> bool" where
  "clause_ok c = (c \<noteq> [] \<and> hd c = CHR 0x0A \<and> last c = CHR '' '' \<and> CHR ''O'' \<notin> set c
     \<and> groups_from 0 c = Some 1 \<and> top_level 0 c = skeleton)"

section \<open>Example data\<close>

text \<open>
  The scenario of the specification: one time period, from \<open>2024-01-01 00:00:00\<close> to
  \<open>2024-01-07 23:59:59\<close>, on Android; the table prefix and the time condition that the
  participation query then holds.
\<close>

definition scenario_period :: time_period where
  "scenario_period =
     \<lparr>start_date = ''2024-01-01 00:00:00'', end_date = ''2024-01-07 23:59:59''\<rparr>"

definition scenario_table_prefix :: string where
  "scenario_table_prefix = ''com_fc_goods_sort_matching_puzzle_triplemaster_android''"

definition scenario_condition :: string where
  "scenario_condition =
     clause_text ''2024-01-01'' ''2024-01-07'' ''2024-01-01 00:00:00'' ''2024-01-07 23:59:59''"

text \<open>A row of a participation table, given its group, its users and its revenue.\<close>

definition example_row :: "string \<Rightarrow> 64 word \<Rightarrow> rat \<Rightarrow> participation_row" where
  "example_row g users revenue =
     \<lparr>participation_row.created_day = ''2024-01-01'', participation_group = g,
      group_total_users = users, paying_users = 1, purchase_count = 1,
      total_revenue = revenue, revenue_25th_percentile = revenue, revenue_median = revenue,
      revenue_75th_percentile = revenue, revenue_90th_percentile = revenue,
      first_time_payers = 1, conversion_rate = Null, pay_rate = Null, ARPU = Null, ARPPU = Null\<rparr>"

text \<open>
  An engine client that answers one query with no row and raises a syntax error on every
  other query.
\<close>

definition example_client :: "string \<Rightarrow> string + int list list" where
  "example_client query =
     (if query = ''SELECT 1 WHERE 0'' then Inr [] else Inl ''Code: 62. Syntax error'')"

section \<open>Evaluating measures on long texts\<close>

text \<open>
  Step rules that read a text from the left, one character at a time, and congruence rules
  that keep the simplifier from walking the rest of the text at every step.
\<close>

lemma occurrences_cong: "pat = pat' \<Longrightarrow> occurrences pat s = occurrences pat' s"
  by simp

lemma prefix_text_cong: "p = p' \<Longrightarrow> prefix p s = prefix p' s"
  by simp

lemma occ_app_Nil: "occurrences pat ([] @ r) = occurrences pat r"
  by simp

lemma occ_app_assoc: "occurrences pat ((a @ b) @ r) = occurrences pat (a @ b @ r)"
  by simp

lemma occ_step: "occurrences pat (c # cs) =
   (if prefix pat (c # cs) then Suc (occurrences pat cs) else occurrences pat cs)"
  by simp

lemma occ_app_step:
  "occurrences pat ((c # l) @ r) =
     (if prefix pat ((c # l) @ r) then Suc (occurrences pat (l @ r)) else occurrences pat (l @ r))"
  by simp

lemma prefix_step: "prefix (p # ps) (c # cs) = (if p = c then prefix ps cs else False)"
  by simp

lemma prefix_app_Nil: "prefix p ([] @ r) = prefix p r"
  by simp

lemma prefix_app_assoc: "prefix p ((a @ b) @ r) = prefix p (a @ b @ r)"
  by simp

lemma prefix_app_step: "prefix (p # ps) ((c # l) @ r) = (if p = c then prefix ps (l @ r) else False)"
  by simp

lemmas count_steps = occ_app_Nil occ_app_step occ_app_assoc occ_step occurrences.simps(1)
  prefix_step prefix_app_Nil prefix_app_step prefix_app_assoc prefix_code(1,2)
  char.inject if_True if_False simp_thms

lemma sublist_appL: "sublist w a \<Longrightarrow> sublist w (a @ b)"
  by (metis append.assoc sublist_def)

lemma sublist_appR: "sublist w b \<Longrightarrow> sublist w (a @ b)"
  by (metis append.assoc sublist_def)

section \<open>Properties of the Condition Builder\<close>

subsection \<open>Counting through appended text\<close>

lemma prefix_OR_has_O: "prefix ''OR '' s \<Longrightarrow> CHR ''O'' \<in> set s"
  by (auto simp: prefix_def)

lemma occ_noO: "CHR ''O'' \<notin> set s \<Longrightarrow> occurrences '' OR '' s = 0"
  by (induction s) (auto simp: prefix_Cons dest: prefix_OR_has_O)

lemma occ_skip: "CHR ''O'' \<notin> set s \<Longrightarrow> x \<noteq> CHR ''O'' \<Longrightarrow>
   occurrences '' OR '' (s @ x # t) = occurrences '' OR '' (x # t)"
proof (induction s)
  case Nil then show ?case by simp
next
  case (Cons a s)
  then show ?case by (cases s) (auto simp: prefix_Cons)
qed

lemma groups_append: "groups_from d s = Some k \<Longrightarrow>
   groups_from d (s @ t) = map_option (\<lambda>n. k + n) (groups_from 0 t)"
proof (induction s arbitrary: d k)
  case Nil
  then show ?case by (auto split: if_splits simp: option.map_ident)
next
  case (Cons c s)
  then show ?case
    by (cases "groups_from 0 t") (auto split: if_splits nat.splits)
qed

lemma top_append: "groups_from d s = Some k \<Longrightarrow>
   top_level d (s @ t) = top_level d s @ top_level 0 t"
proof (induction s arbitrary: d k)
  case Nil
  then show ?case by (auto split: if_splits)
next
  case (Cons c s)
  then show ?case
    by (auto split: if_splits nat.splits)
qed

lemma groups_plain: "CHR ''('' \<notin> set s \<Longrightarrow> CHR '')'' \<notin> set s \<Longrightarrow>
  groups_from d (s @ t) = groups_from d t"
  by (induction s) auto

lemma top_plain: "CHR ''('' \<notin> set s \<Longrightarrow> CHR '')'' \<notin> set s \<Longrightarrow>
  top_level d (s @ t) = (if d = 0 then s else []) @ top_level d t"
  by (induction s) auto

lemma clause_text_groups:
  assumes "plain sd" "plain ed" "plain s" "plain e"
  shows "groups_from 0 (clause_text sd ed s e) = Some 1"
  using assms by (simp add: clause_text_def plain_def groups_plain)

lemma clause_text_top:
  assumes "plain sd" "plain ed" "plain s" "plain e"
  shows "top_level 0 (clause_text sd ed s e) = skeleton"
  using assms by (simp add: clause_text_def plain_def top_plain)

lemma clause_text_ends:
  "clause_text sd ed s e \<noteq> [] \<and> hd (clause_text sd ed s e) = CHR 0x0A \<and> last (clause_text sd ed s e) = CHR '' ''"
  by (simp add: clause_text_def)

lemma clause_text_noO:
  assumes "plain sd" "plain ed" "plain s" "plain e"
  shows "CHR ''O'' \<notin> set (clause_text sd ed s e)"
  using assms by (simp add: clause_text_def plain_def)

lemma clause_text_ok:
  "plain sd \<Longrightarrow> plain ed \<Longrightarrow> plain s \<Longrightarrow> plain e \<Longrightarrow> clause_ok (clause_text sd ed s e)"
  unfolding clause_ok_def
  by (intro conjI clause_text_groups clause_text_top clause_text_noO)
     (simp_all add: clause_text_ends)

lemma occ_after_clause:
  assumes "clause_ok c" "clause_ok c'"
  shows "occurrences '' OR '' (c @ '' OR '' @ c' @ t) = Suc (occurrences '' OR '' (c' @ t))"
proof -
  from assms(1) have c: "c = butlast c @ '' ''" and noO: "CHR ''O'' \<notin> set (butlast c)"
    by (auto simp: clause_ok_def dest: in_set_butlastD) (metis append_butlast_last_id)
  from assms(2) obtain r where c': "c' = CHR 0x0A # r"
    by (cases c') (auto simp: clause_ok_def)
  have "occurrences '' OR '' (c @ '' OR '' @ c' @ t)
      = occurrences '' OR '' (butlast c @ CHR '' '' # ('' OR '' @ c' @ t))"
    by (subst c) simp
  also have "\<dots> = occurrences '' OR '' (CHR '' '' # ('' OR '' @ c' @ t))"
    using noO by (rule occ_skip) simp
  also have "\<dots> = Suc (occurrences '' OR '' (c' @ t))"
    by (simp add: c')
  finally show ?thesis .
qed

lemma join_clauses:
  assumes "cs \<noteq> []" "list_all clause_ok cs"
  shows "occurrences '' OR '' (join '' OR '' cs) = length cs - 1
       \<and> groups_from 0 (join '' OR '' cs) = Some (length cs)
       \<and> top_level 0 (join '' OR '' cs) = join '' OR '' (replicate (length cs) skeleton)
       \<and> (\<exists>t. join '' OR '' cs = hd cs @ t)"
  using assms
proof (induction "'' OR ''" cs rule: join.induct)
  case 1
  then show ?case by simp
next
  case (2 x)
  then show ?case by (simp add: clause_ok_def occ_noO)
next
  case (3 x y ys)
  then have ih: "occurrences '' OR '' (join '' OR '' (y # ys)) = length (y # ys) - 1"
    "groups_from 0 (join '' OR '' (y # ys)) = Some (length (y # ys))"
    "top_level 0 (join '' OR '' (y # ys)) = join '' OR '' (replicate (length (y # ys)) skeleton)"
    and x: "clause_ok x" and y: "clause_ok y"
    by simp_all
  from 3 obtain t where t: "join '' OR '' (y # ys) = y @ t" by auto
  have gx: "groups_from 0 x = Some 1" and tx: "top_level 0 x = skeleton"
    using x by (simp_all add: clause_ok_def)
  have "occurrences '' OR '' (join '' OR '' (x # y # ys)) = Suc (occurrences '' OR '' (join '' OR '' (y # ys)))"
    using occ_after_clause [OF x y, of t] by (simp add: t)
  moreover have "groups_from 0 (join '' OR '' (x # y # ys)) = Some (length (x # y # ys))"
    using groups_append [OF gx, of "'' OR '' @ join '' OR '' (y # ys)"] ih(2) by simp
  moreover have "top_level 0 (join '' OR '' (x # y # ys)) = join '' OR '' (replicate (length (x # y # ys)) skeleton)"
    using top_append [OF gx, of "'' OR '' @ join '' OR '' (y # ys)"] ih(3) tx by simp
  ultimately show ?case using ih(1) by simp
qed

subsection \<open>Timestamps and their first items\<close>

lemma timestamp_char_plain: "timestamp_char c \<Longrightarrow> c \<noteq> CHR ''('' \<and> c \<noteq> CHR '')'' \<and> c \<noteq> CHR ''O''"
  by (auto simp: timestamp_char_def)

lemma timestamp_char_space: "timestamp_char c \<Longrightarrow> py_isspace c \<Longrightarrow> c = CHR '' ''"
  by (auto simp: timestamp_char_def py_isspace_def)

lemma is_timestamp_plain: "is_timestamp s \<Longrightarrow> plain s"
  by (auto simp: is_timestamp_def plain_def list_all_iff dest: timestamp_char_plain)

lemma split_item0:
  assumes "\<exists>c\<in>set s. \<not> py_isspace c"
  shows "item0 (split s) = Inr (takeWhile (\<lambda>c. \<not> py_isspace c) (dropWhile py_isspace s))"
proof -
  have "dropWhile py_isspace s \<noteq> []"
    using assms by (auto simp: dropWhile_eq_Nil_conv)
  then show ?thesis
    by (subst split.simps) (simp add: item0_def Let_def)
qed

lemma is_timestamp_item0:
  assumes "is_timestamp s"
  shows "\<exists>d. item0 (split s) = Inr d \<and> plain d"
proof -
  let ?d = "takeWhile (\<lambda>c. \<not> py_isspace c) (dropWhile py_isspace s)"
  from assms obtain c where "c \<in> set s" "c \<noteq> CHR '' ''" "timestamp_char c"
    by (auto simp: is_timestamp_def list_all_iff)
  then have "\<exists>c\<in>set s. \<not> py_isspace c"
    using timestamp_char_space by blast
  then have "item0 (split s) = Inr ?d"
    by (rule split_item0)
  moreover have "set ?d \<subseteq> set s"
    by (meson set_takeWhileD set_dropWhileD subsetI)
  then have "plain ?d"
    using is_timestamp_plain [OF assms] by (auto simp: plain_def)
  ultimately show ?thesis by blast
qed

lemma condition_ok:
  assumes "is_timestamp (start_date p)" "is_timestamp (end_date p)"
  shows "\<exists>c. condition p = Inr c \<and> clause_ok c"
proof -
  from is_timestamp_item0 [OF assms(1)] obtain sd where sd: "item0 (split (start_date p)) = Inr sd" "plain sd"
    by blast
  from is_timestamp_item0 [OF assms(2)] obtain ed where ed: "item0 (split (end_date p)) = Inr ed" "plain ed"
    by blast
  have "condition p = Inr (clause_text sd ed (start_date p) (end_date p))"
    by (simp add: condition_def sd ed clause_text_def)
  moreover have "clause_ok (clause_text sd ed (start_date p) (end_date p))"
    using sd(2) ed(2) assms by (simp add: clause_text_ok is_timestamp_plain)
  ultimately show ?thesis by blast
qed

lemma connector_condition_ok:
  assumes "is_timestamp (start_date p)" "is_timestamp (end_date p)"
  shows "clause_ok (connector_condition p)"
proof -
  have "connector_condition p = clause_text (start_date p) (end_date p) (start_date p) (end_date p)"
    by (simp add: connector_condition_def clause_text_def)
  then show ?thesis
    using assms by (simp add: clause_text_ok is_timestamp_plain)
qed

lemma conditions_ok:
  assumes "list_all (\<lambda>p. is_timestamp (start_date p) \<and> is_timestamp (end_date p)) ps"
  shows "\<exists>cs. conditions ps = Inr cs \<and> length cs = length ps \<and> list_all clause_ok cs"
  using assms
proof (induction ps)
  case Nil
  then show ?case by simp
next
  case (Cons p ps)
  then obtain cs where cs: "conditions ps = Inr cs" "length cs = length ps" "list_all clause_ok cs"
    by auto
  from Cons.prems obtain c where c: "condition p = Inr c" "clause_ok c"
    using condition_ok [of p] by auto
  show ?case
    by (simp add: c cs)
qed

lemma connector_conditions_ok:
  assumes "list_all (\<lambda>p. is_timestamp (start_date p) \<and> is_timestamp (end_date p)) ps"
  shows "list_all clause_ok (map connector_condition ps)"
  using assms by (induction ps) (simp_all add: connector_condition_ok)

text \<open>
  Claim C2. For every non-empty list of \<open>n\<close> time periods whose start and end are
  timestamps, both Condition Builders return (app.py without raising) a balanced text of
  exactly \<open>n\<close> top-level parenthesized groups in which \<open>'' OR ''\<close> occurs exactly
  \<open>n - 1\<close> times, and whose top level is exactly \<open>n\<close> groups joined by \<open>'' OR ''\<close>:
  no operator before the first group or after the last. For one period there is no OR,
  for two there is one.
\<close>

theorem condition_clauses:
  assumes "time_periods \<noteq> []"
    and "list_all (\<lambda>p. is_timestamp (start_date p) \<and> is_timestamp (end_date p)) time_periods"
  shows "(\<exists>r. build_time_periods_condition time_periods = Inr r
            \<and> groups_from 0 r = Some (length time_periods)
            \<and> occurrences '' OR '' r = length time_periods - 1
            \<and> top_level 0 r = join '' OR '' (replicate (length time_periods) skeleton))
       \<and> groups_from 0 (connector_build_time_periods_condition time_periods) = Some (length time_periods)
       \<and> occurrences '' OR '' (connector_build_time_periods_condition time_periods) = length time_periods - 1
       \<and> top_level 0 (connector_build_time_periods_condition time_periods)
           = join '' OR '' (replicate (length time_periods) skeleton)"
proof -
  from conditions_ok [OF assms(2)] obtain cs where
    cs: "conditions time_periods = Inr cs" "length cs = length time_periods" "list_all clause_ok cs"
    by blast
  from assms(1) cs(2) have ne: "cs \<noteq> []" by auto
  have app: "build_time_periods_condition time_periods = Inr (join '' OR '' cs)"
    by (simp add: build_time_periods_condition_def cs(1))
  have ne': "map connector_condition time_periods \<noteq> []"
    using assms(1) by simp
  show ?thesis
    using join_clauses [OF ne cs(3)] join_clauses [OF ne' connector_conditions_ok [OF assms(2)]]
    by (simp add: app cs(2) connector_build_time_periods_condition_def)
qed

theorem condition_clauses_witness:
  "(\<exists>r. build_time_periods_condition
          [\<lparr>start_date = ''2024-01-01 00:00:00'', end_date = ''2024-01-07 23:59:59''\<rparr>,
           \<lparr>start_date = ''2024-02-01 00:00:00'', end_date = ''2024-02-07 23:59:59''\<rparr>] = Inr r
        \<and> groups_from 0 r = Some 2 \<and> occurrences '' OR '' r = 1
        \<and> top_level 0 r = skeleton @ '' OR '' @ skeleton)"
  using condition_clauses [of "[\<lparr>start_date = ''2024-01-01 00:00:00'', end_date = ''2024-01-07 23:59:59''\<rparr>,
           \<lparr>start_date = ''2024-02-01 00:00:00'', end_date = ''2024-02-07 23:59:59''\<rparr>]"]
  by (simp add: is_timestamp_def timestamp_char_def numeral_2_eq_2)

subsection \<open>The two implementations\<close>

lemma diverge: "c \<noteq> d \<Longrightarrow> (u @ c # v) @ x \<noteq> (u @ d # w) @ y"
  by simp

lemma item0_split_cases:
  "item0 (split s) = (if dropWhile py_isspace s = [] then Inl IndexError
     else Inr (takeWhile (\<lambda>c. \<not> py_isspace c) (dropWhile py_isspace s)))"
  by (subst split.simps) (simp add: item0_def Let_def)

lemma not_space_sq: "\<not> py_isspace (CHR 0x27)"
  by (simp add: py_isspace_def)

text \<open>When the first item is not the whole text, the two texts part at some character.\<close>

lemma first_item_parts:
  assumes "item0 (split s) = Inr sd" "sd \<noteq> s"
  shows "\<exists>u c v d w. sd @ sq @ X = u @ c # v \<and> s @ sq @ Y = u @ d # w \<and> c \<noteq> d"
proof -
  let ?t = "dropWhile py_isspace s"
  from assms(1) have t: "?t \<noteq> []" and sd: "sd = takeWhile (\<lambda>c. \<not> py_isspace c) ?t"
    by (auto simp: item0_split_cases split: if_splits)
  from t obtain h t' where ht: "?t = h # t'"
    by (cases ?t) auto
  have h: "\<not> py_isspace h"
    using hd_dropWhile [of py_isspace s] ht by simp
  then obtain sd' where sd': "sd = h # sd'"
    by (simp add: sd ht)
  show ?thesis
  proof (cases "takeWhile py_isspace s")
    case Nil
    then have s: "?t = s"
      by (metis append_Nil takeWhile_dropWhile_id)
    have "s = sd @ dropWhile (\<lambda>c. \<not> py_isspace c) s"
      by (simp add: sd s)
    moreover from this assms(2) obtain r rest where r: "dropWhile (\<lambda>c. \<not> py_isspace c) s = r # rest"
      by (cases "dropWhile (\<lambda>c. \<not> py_isspace c) s") auto
    moreover have "py_isspace r"
      using hd_dropWhile [of "\<lambda>c. \<not> py_isspace c" s] r by simp
    then have "CHR 0x27 \<noteq> r"
      using not_space_sq by auto
    ultimately have "sd @ sq @ X = sd @ CHR 0x27 # X \<and> s @ sq @ Y = sd @ r # (rest @ sq @ Y) \<and> CHR 0x27 \<noteq> r"
      by (metis append_Cons append_Nil append_assoc)
    then show ?thesis by blast
  next
    case (Cons w ws)
    then have "w \<in> set (takeWhile py_isspace s)"
      by simp
    then have w: "py_isspace w"
      by (rule set_takeWhileD [THEN conjunct2])
    have "s = (w # ws) @ ?t"
      using Cons by (metis takeWhile_dropWhile_id)
    then have "s @ sq @ Y = [] @ w # (ws @ ?t @ sq @ Y)"
      by simp
    moreover have "sd @ sq @ X = [] @ h # (sd' @ sq @ X)"
      by (simp add: sd')
    moreover have "h \<noteq> w"
      using h w by auto
    ultimately show ?thesis by blast
  qed
qed

lemma first_item_same: "item0 (split s) = Inr s \<Longrightarrow> single_item s"
proof -
  assume a: "item0 (split s) = Inr s"
  let ?t = "dropWhile py_isspace s"
  from a have t: "?t \<noteq> []" and s: "s = takeWhile (\<lambda>c. \<not> py_isspace c) ?t"
    by (auto simp: item0_split_cases split: if_splits)
  have "set s \<subseteq> {c. \<not> py_isspace c}"
    by (subst s) (auto dest: set_takeWhileD)
  moreover have "s \<noteq> []"
    using t by auto
  ultimately show ?thesis
    by (auto simp: single_item_def list_ex_iff)
qed

lemma clause_text_start_parts:
  assumes "item0 (split s) = Inr sd" "sd \<noteq> s"
  shows "clause_text sd ed s e @ x \<noteq> clause_text s e' s e @ y"
proof -
  define L where "L = ''\<newline>        (created_day BETWEEN toDate('' @ sq"
  define R where "R = (\<lambda>d. '') AND toDate('' @ sq @ d @ sq @ '')\<newline>'' @
     ''        AND created_date >= toDateTime('' @ sq @ s @ sq @ '')\<newline>'' @
     ''        AND created_date <= toDateTime('' @ sq @ e @ sq @ ''))\<newline>'' @
     ''        '')"
  have c1: "clause_text sd ed s e = L @ sd @ sq @ R ed"
    and c2: "clause_text s e' s e = L @ s @ sq @ R e'"
    by (simp_all add: clause_text_def L_def R_def)
  from first_item_parts [OF assms, of "R ed" "R e'"] obtain u c v d w where
    "sd @ sq @ R ed = u @ c # v" "s @ sq @ R e' = u @ d # w" "c \<noteq> d"
    by blast
  then have "clause_text sd ed s e @ x = ((L @ u) @ c # v) @ x"
    "clause_text s e' s e @ y = ((L @ u) @ d # w) @ y" "c \<noteq> d"
    by (simp_all add: c1 c2)
  then show ?thesis
    using diverge by metis
qed

lemma clause_text_end_parts:
  assumes "item0 (split e) = Inr ed" "ed \<noteq> e"
  shows "clause_text s ed s e @ x \<noteq> clause_text s e s e @ y"
proof -
  define L where "L = ''\<newline>        (created_day BETWEEN toDate('' @ sq @ s @ sq @ '') AND toDate('' @ sq"
  define R where "R = '')\<newline>'' @
     ''        AND created_date >= toDateTime('' @ sq @ s @ sq @ '')\<newline>'' @
     ''        AND created_date <= toDateTime('' @ sq @ e @ sq @ ''))\<newline>'' @
     ''        ''"
  have c1: "clause_text s ed s e = L @ ed @ sq @ R"
    and c2: "clause_text s e s e = L @ e @ sq @ R"
    by (simp_all add: clause_text_def L_def R_def)
  from first_item_parts [OF assms, of R R] obtain u c v d w where
    "ed @ sq @ R = u @ c # v" "e @ sq @ R = u @ d # w" "c \<noteq> d"
    by blast
  then have "clause_text s ed s e @ x = ((L @ u) @ c # v) @ x"
    "clause_text s e s e @ y = ((L @ u) @ d # w) @ y" "c \<noteq> d"
    by (simp_all add: c1 c2)
  then show ?thesis
    using diverge by metis
qed

lemma condition_Inr:
  assumes "condition p = Inr c"
  shows "\<exists>sd ed. item0 (split (start_date p)) = Inr sd \<and> item0 (split (end_date p)) = Inr ed
           \<and> c = clause_text sd ed (start_date p) (end_date p)"
  using assms by (auto simp: condition_def clause_text_def split: sum.splits)

lemma connector_condition_text:
  "connector_condition p = clause_text (start_date p) (end_date p) (start_date p) (end_date p)"
  by (simp add: connector_condition_def clause_text_def)

lemma condition_agrees:
  assumes "condition p = Inr c" "c @ x = connector_condition p @ y"
  shows "single_item (start_date p) \<and> single_item (end_date p) \<and> c = connector_condition p"
proof -
  from condition_Inr [OF assms(1)] obtain sd ed where
    sd: "item0 (split (start_date p)) = Inr sd" and ed: "item0 (split (end_date p)) = Inr ed"
    and c: "c = clause_text sd ed (start_date p) (end_date p)"
    by blast
  have s: "sd = start_date p"
    using clause_text_start_parts [OF sd, of ed "end_date p" x "end_date p" y] assms(2)
    by (auto simp: c connector_condition_text)
  have e: "ed = end_date p"
    using clause_text_end_parts [OF ed, of "start_date p" x y] assms(2)
    by (auto simp: c s connector_condition_text)
  show ?thesis
    using sd ed first_item_same by (simp add: c s e connector_condition_text)
qed

lemma join_Cons: "join sep (c # cs) = c @ (if cs = [] then [] else sep @ join sep cs)"
  by (cases cs) simp_all

lemma conditions_length: "conditions ps = Inr cs \<Longrightarrow> length cs = length ps"
  by (induction ps arbitrary: cs) (auto split: sum.splits)

lemma conditions_agree:
  assumes "conditions ps = Inr cs" "join sep cs = join sep (map connector_condition ps)"
  shows "list_all (\<lambda>p. single_item (start_date p) \<and> single_item (end_date p)) ps"
  using assms
proof (induction ps arbitrary: cs)
  case Nil
  then show ?case by simp
next
  case (Cons p ps)
  from Cons.prems(1) obtain c cs' where c: "condition p = Inr c" and cs': "conditions ps = Inr cs'"
    and cs: "cs = c # cs'"
    by (auto split: sum.splits)
  have len: "length cs' = length ps"
    using cs' by (rule conditions_length)
  from Cons.prems(2) have eq: "c @ (if cs' = [] then [] else sep @ join sep cs')
      = connector_condition p @ (if ps = [] then [] else sep @ join sep (map connector_condition ps))"
    by (simp add: cs join_Cons)
  from condition_agrees [OF c eq] have p: "single_item (start_date p)" "single_item (end_date p)"
    and same: "c = connector_condition p"
    by simp_all
  have "list_all (\<lambda>p. single_item (start_date p) \<and> single_item (end_date p)) ps"
  proof (cases ps)
    case Nil
    then show ?thesis by simp
  next
    case (Cons q qs)
    then have "cs' \<noteq> []"
      using len by auto
    with eq same Cons have "join sep cs' = join sep (map connector_condition ps)"
      by simp
    with cs' show ?thesis
      by (rule Cons.IH)
  qed
  with p show ?case by simp
qed

lemma single_item_first: "single_item s \<Longrightarrow> item0 (split s) = Inr s"
  by (cases s) (auto simp: item0_split_cases single_item_def list_ex_iff takeWhile_eq_all_conv)

text \<open>
  Claim C9, as amended. The two Condition Builders return the same text (app.py without
  raising) exactly for the lists of time periods whose start and end are each one item, not
  empty and free of whitespace, such as a bare date. For every other list, and so for
  every list that holds a \<open>date time\<close> timestamp, they differ: app.py gives \<open>toDate\<close>
  the first item alone, db_connector.py the whole timestamp.
\<close>

theorem builders_agree_iff_single_items:
  "build_time_periods_condition time_periods
     = Inr (connector_build_time_periods_condition time_periods)
   \<longleftrightarrow> list_all (\<lambda>p. single_item (start_date p) \<and> single_item (end_date p)) time_periods"
proof
  assume "build_time_periods_condition time_periods
     = Inr (connector_build_time_periods_condition time_periods)"
  then obtain cs where "conditions time_periods = Inr cs"
    "join '' OR '' cs = join '' OR '' (map connector_condition time_periods)"
    by (auto simp: build_time_periods_condition_def connector_build_time_periods_condition_def
        split: sum.splits)
  then show "list_all (\<lambda>p. single_item (start_date p) \<and> single_item (end_date p)) time_periods"
    by (rule conditions_agree)
next
  assume a: "list_all (\<lambda>p. single_item (start_date p) \<and> single_item (end_date p)) time_periods"
  have "conditions time_periods = Inr (map connector_condition time_periods)"
    using a by (induction time_periods)
      (simp_all add: condition_def connector_condition_def single_item_first)
  then show "build_time_periods_condition time_periods
     = Inr (connector_build_time_periods_condition time_periods)"
    by (simp add: build_time_periods_condition_def connector_build_time_periods_condition_def)
qed

theorem builders_agree_iff_single_items_witness:
  "build_time_periods_condition [\<lparr>start_date = ''2024-01-01'', end_date = ''2024-01-07''\<rparr>]
     = Inr (connector_build_time_periods_condition
         [\<lparr>start_date = ''2024-01-01'', end_date = ''2024-01-07''\<rparr>])"
  using builders_agree_iff_single_items
      [of "[\<lparr>start_date = ''2024-01-01'', end_date = ''2024-01-07''\<rparr>]"]
  by (simp add: single_item_def py_isspace_def)

text \<open>
  Claim C9 as stated fails: for the period from \<open>2024-01-01 00:00:00\<close> to
  \<open>2024-01-07 23:59:59\<close> the two Condition Builders return different texts.
\<close>

theorem builders_differ_on_timestamps:
  "build_time_periods_condition [\<lparr>start_date = ''2024-01-01 00:00:00'', end_date = ''2024-01-07 23:59:59''\<rparr>]
     \<noteq> Inr (connector_build_time_periods_condition [\<lparr>start_date = ''2024-01-01 00:00:00'', end_date = ''2024-01-07 23:59:59''\<rparr>])"
  by code_simp

section \<open>Properties of the derived ratios\<close>








section \<open>Properties of the Metrics Summarizer\<close>

subsection \<open>Sums of int64 columns\<close>

text \<open>
  The int64 sum of a column is the sum of its numbers, wrapped into the signed 64-bit
  range; it is that sum when the sum lies in the range.
\<close>

lemma sint_sum_list:
  "sint (sum_list (ws :: 64 word list)) = signed_take_bit 63 (sum_list (map sint ws))"
proof (induction ws)
  case Nil
  then show ?case by simp
next
  case (Cons w ws)
  have "sint (w + sum_list ws) = signed_take_bit 63 (sint w + sint (sum_list ws))"
    by (simp add: sint_word_ariths)
  also have "\<dots> = signed_take_bit 63 (sint w + signed_take_bit 63 (sum_list (map sint ws)))"
    by (simp add: Cons.IH)
  also have "\<dots> = signed_take_bit 63 (signed_take_bit 63 (sint w)
      + signed_take_bit 63 (signed_take_bit 63 (sum_list (map sint ws))))"
    by (rule signed_take_bit_add [symmetric])
  also have "\<dots> = signed_take_bit 63 (signed_take_bit 63 (sint w)
      + signed_take_bit 63 (sum_list (map sint ws)))"
    by (simp only: signed_take_bit_signed_take_bit min.idem)
  also have "\<dots> = signed_take_bit 63 (sint w + sum_list (map sint ws))"
    by (rule signed_take_bit_add)
  finally show ?case by simp
qed

lemma sint_sum_list_exact:
  assumes "- (2 ^ 63) \<le> sum_list (map sint (ws :: 64 word list))"
    and "sum_list (map sint ws) < 2 ^ 63"
  shows "sint (sum_list ws) = sum_list (map sint ws)"
  using assms by (simp add: sint_sum_list signed_take_bit_int_eq_self)

lemma sum_list_filter_le:
  assumes "list_all (\<lambda>x. 0 \<le> f x) xs"
  shows "0 \<le> sum_list (map f (filter P xs)) \<and> sum_list (map f (filter P xs)) \<le> (sum_list (map f xs) :: int)"
  using assms by (induction xs) auto

subsection \<open>The three summaries\<close>

text \<open>
  Claim C4, as amended. For every participation table whose user counts are not negative
  and add up to less than \<open>2^63\<close>, so that the int64 sum of the column does not wrap,
  \<open>calculate_overall_participation_rate\<close> returns the sum of \<open>group_total_users\<close> over
  the rows of group \<open>Event Participant\<close> divided by the sum over all rows, and returns 0
  when the table is \<open>None\<close>, is empty, or that denominator is 0.
\<close>

theorem participation_rate_quotient:
  assumes "list_all (\<lambda>r. 0 \<le> sint (group_total_users r)) rows"
    and "sum_list (map (\<lambda>r. sint (group_total_users r)) rows) < 2 ^ 63"
  shows "calculate_overall_participation_rate None = 0
       \<and> calculate_overall_participation_rate (Some []) = 0
       \<and> calculate_overall_participation_rate (Some rows) =
           (if sum_list (map (\<lambda>r. sint (group_total_users r)) rows) = 0 then 0
            else of_int (sum_list (map (\<lambda>r. sint (group_total_users r))
                   (filter (\<lambda>r. participation_group r = ''Event Participant'') rows)))
                 / of_int (sum_list (map (\<lambda>r. sint (group_total_users r)) rows)))"
proof -
  let ?f = "\<lambda>r. sint (group_total_users r)"
  let ?P = "\<lambda>r. participation_group r = ''Event Participant''"
  have part: "0 \<le> sum_list (map ?f (filter ?P rows))"
    "sum_list (map ?f (filter ?P rows)) \<le> sum_list (map ?f rows)"
    using sum_list_filter_le [OF assms(1), of ?P] by simp_all
  have all: "0 \<le> sum_list (map ?f rows)"
    using sum_list_filter_le [OF assms(1), of "\<lambda>_. True"] by simp
  have t: "sint (sum_list (map group_total_users rows)) = sum_list (map ?f rows)"
    using sint_sum_list_exact [of "map group_total_users rows"] all assms(2)
    by (simp add: comp_def)
  have p: "sint (sum_list (map group_total_users (filter ?P rows))) = sum_list (map ?f (filter ?P rows))"
    using sint_sum_list_exact [of "map group_total_users (filter ?P rows)"] part assms(2)
    by (simp add: comp_def)
  have t': "(signed (sum_list (map group_total_users rows)) :: rat) = of_int (sum_list (map ?f rows))"
    using of_int_sint [of "sum_list (map group_total_users rows)", where ?'a = rat, symmetric]
    by (simp only: t)
  have p': "(signed (sum_list (map group_total_users (filter ?P rows))) :: rat)
      = of_int (sum_list (map ?f (filter ?P rows)))"
    using of_int_sint [of "sum_list (map group_total_users (filter ?P rows))", where ?'a = rat, symmetric]
    by (simp only: p)
  have "calculate_overall_participation_rate (Some rows) =
      (if rows = [] then 0
       else if sum_list (map ?f rows) > 0
         then of_int (sum_list (map ?f (filter ?P rows))) / of_int (sum_list (map ?f rows))
         else 0)"
    by (simp add: calculate_overall_participation_rate_def Let_def t t' p')
  moreover have "rows = [] \<Longrightarrow> sum_list (map ?f rows) = 0"
    by simp
  ultimately show ?thesis
    using all by (auto simp: calculate_overall_participation_rate_def)
qed

theorem participation_rate_quotient_witness:
  "calculate_overall_participation_rate
     (Some [example_row ''Event Participant'' 30 100, example_row ''Non-Participant'' 70 50]) = 3 / 10
   \<and> calculate_overall_participation_rate (Some [example_row ''Event Participant'' 0 0]) = 0"
  using participation_rate_quotient
      [of "[example_row ''Event Participant'' 30 100, example_row ''Non-Participant'' 70 50]"]
    participation_rate_quotient [of "[example_row ''Event Participant'' 0 0]"]
  by (simp add: example_row_def)

text \<open>
  Claim C4 as stated fails where the int64 sum wraps. On two rows of group
  \<open>Event Participant\<close> with \<open>2^62\<close> users each, the quotient of the two sums is 1, but
  the int64 total is \<open>-2^63\<close>, the test \<open>total_users > 0\<close> fails and the result is 0.
\<close>

theorem participation_rate_wraps:
  "calculate_overall_participation_rate
     (Some [example_row ''Event Participant'' (2 ^ 62) 100,
            example_row ''Event Participant'' (2 ^ 62) 50]) = 0
 \<and> (of_int (sum_list (map (\<lambda>r. sint (group_total_users r))
        (filter (\<lambda>r. participation_group r = ''Event Participant'')
           [example_row ''Event Participant'' (2 ^ 62) 100,
            example_row ''Event Participant'' (2 ^ 62) 50])))
      / of_int (sum_list (map (\<lambda>r. sint (group_total_users r))
           [example_row ''Event Participant'' (2 ^ 62) 100,
            example_row ''Event Participant'' (2 ^ 62) 50])) :: rat) = 1"
  by (simp add: calculate_overall_participation_rate_def example_row_def)

text \<open>
  Claim C5. \<open>calculate_overall_revenue\<close> returns the sum of \<open>total_revenue\<close> over the
  rows of group \<open>Event Participant\<close>, and 0 when the table is \<open>None\<close> or empty; it has
  a value on every table.
\<close>

theorem revenue_participant_sum:
  "calculate_overall_revenue None = 0
 \<and> calculate_overall_revenue (Some []) = 0
 \<and> calculate_overall_revenue (Some rows) =
     sum_list (map total_revenue (filter (\<lambda>r. participation_group r = ''Event Participant'') rows))"
  by (cases rows) (simp_all add: calculate_overall_revenue_def)

text \<open>
  Claim C6, as amended. When the numbers of \<open>total_interactions\<close> add up to a number of
  the signed 64-bit range, the total engagement is that sum over the rows of the
  engagement table; it is 0 when the table is empty or \<open>None\<close>, and on the one row with
  50 interactions it is 50.
\<close>

theorem total_engagement_sum:
  assumes "- (2 ^ 63) \<le> sum_list (map (\<lambda>r. sint (total_interactions r)) rows)"
    and "sum_list (map (\<lambda>r. sint (total_interactions r)) rows) < 2 ^ 63"
  shows "total_engagement None = 0
 \<and> total_engagement (Some []) = 0
 \<and> total_engagement (Some rows) = sum_list (map (\<lambda>r. sint (total_interactions r)) rows)
 \<and> total_engagement (Some [\<lparr>created_day = ''2024-01-01'', unique_users = 10,
       total_interactions = 50, avg_interactions_per_user = 5, unique_sessions = sessions,
       avg_interactions_per_session = per_session\<rparr>]) = 50"
  using sint_sum_list_exact [of "map total_interactions rows"] assms
  by (cases rows) (simp_all add: total_engagement_def comp_def)

theorem total_engagement_sum_witness:
  "total_engagement (Some [\<lparr>created_day = ''2024-01-01'', unique_users = 10,
       total_interactions = 50, avg_interactions_per_user = 5, unique_sessions = 20,
       avg_interactions_per_session = 5 / 2\<rparr>,
     \<lparr>created_day = ''2024-01-02'', unique_users = 4,
       total_interactions = 12, avg_interactions_per_user = 3, unique_sessions = 6,
       avg_interactions_per_session = 2\<rparr>]) = 62"
  using total_engagement_sum [of "[\<lparr>created_day = ''2024-01-01'', unique_users = 10,
       total_interactions = 50, avg_interactions_per_user = 5, unique_sessions = 20,
       avg_interactions_per_session = 5 / 2\<rparr>,
     \<lparr>created_day = ''2024-01-02'', unique_users = 4,
       total_interactions = 12, avg_interactions_per_user = 3, unique_sessions = 6,
       avg_interactions_per_session = 2\<rparr>]"]
  by simp

text \<open>
  Claim C6 as stated fails where the int64 sum wraps: two rows of \<open>2^62\<close> interactions
  each add up to \<open>2^63\<close>, and the total engagement is \<open>-2^63\<close>.
\<close>

theorem total_engagement_wraps:
  "total_engagement (Some [\<lparr>created_day = ''2024-01-01'', unique_users = 10,
       total_interactions = 2 ^ 62, avg_interactions_per_user = 5, unique_sessions = 20,
       avg_interactions_per_session = 5 / 2\<rparr>,
     \<lparr>created_day = ''2024-01-02'', unique_users = 4,
       total_interactions = 2 ^ 62, avg_interactions_per_user = 3, unique_sessions = 6,
       avg_interactions_per_session = 2\<rparr>]) = - (2 ^ 63)
 \<and> sum_list (map (\<lambda>r. sint (total_interactions r))
       [\<lparr>created_day = ''2024-01-01'', unique_users = 10,
         total_interactions = 2 ^ 62, avg_interactions_per_user = 5, unique_sessions = 20,
         avg_interactions_per_session = 5 / 2\<rparr>,
        \<lparr>created_day = ''2024-01-02'', unique_users = 4,
         total_interactions = 2 ^ 62, avg_interactions_per_user = 3, unique_sessions = 6,
         avg_interactions_per_session = 2\<rparr>]) = 2 ^ 63"
  by (simp add: total_engagement_def)

section \<open>Properties of the Query Executor\<close>

text \<open>
  Claim C7, as amended. \<open>execute_query\<close> of app.py maps an empty engine result to an
  empty table, with no error shown. On an engine error it shows the message
  \<open>Query execution failed for <platform>: <message>\<close> and returns \<open>None\<close>, which differs
  from the empty table, and it returns \<open>None\<close> exactly when it shows a message.
\<close>

theorem execute_query_outcomes:
  "((client :: string \<Rightarrow> string + 'c list list) query = Inr [] \<longrightarrow>
      execute_query client query platform = ([], Some empty_frame))
 \<and> (client query = Inl e \<longrightarrow>
      execute_query client query platform
        = ([''Query execution failed for '' @ platform @ '': '' @ e], None))
 \<and> (snd (execute_query client query platform) = None
      \<longleftrightarrow> fst (execute_query client query platform) \<noteq> [])
 \<and> frame_empty (empty_frame :: (string, 'c) frame)
 \<and> Some (empty_frame :: (string, 'c) frame) \<noteq> None"
  by (auto simp: execute_query_def frame_empty_def empty_frame_def
        Let_def split: sum.splits)

theorem execute_query_outcomes_witness:
  "execute_query example_client ''SELECT 1 WHERE 0'' ''Android'' = ([], Some empty_frame)
 \<and> execute_query example_client ''SELEC'' ''iOS''
      = ([''Query execution failed for iOS: Code: 62. Syntax error''], None)"
  using execute_query_outcomes [of example_client "''SELECT 1 WHERE 0''" "''Android''" "''x''"]
    execute_query_outcomes [of example_client "''SELEC''" "''iOS''" "''Code: 62. Syntax error''"]
  by (simp add: example_client_def)

text \<open>
  Claim C7 as stated fails: the value that app.py returns on a failure carries neither the
  platform nor the message. Two failures, of different platforms and messages, return the
  same value.
\<close>

theorem failure_value_carries_nothing:
  "snd (execute_query example_client ''SELEC'' ''Android'')
     = snd (execute_query (\<lambda>q. Inl ''Connection refused'') ''SELEC'' ''iOS'')
   \<and> ''Android'' \<noteq> ''iOS'' \<and> ''Code: 62. Syntax error'' \<noteq> ''Connection refused''"
  by (simp add: execute_query_def example_client_def)

section \<open>The participation query of one time period\<close>

lemma split_scenario_start: "item0 (split ''2024-01-01 00:00:00'') = Inr ''2024-01-01''"
  by code_simp

lemma split_scenario_end: "item0 (split ''2024-01-07 23:59:59'') = Inr ''2024-01-07''"
  by code_simp

lemma str_5: "str 5 = ''5''"
  by code_simp

lemma lower_Android: "lower ''Android'' = ''android''"
  by code_simp

lemma scenario_build:
  "build_time_periods_condition [scenario_period] = Inr scenario_condition"
  by (simp add: build_time_periods_condition_def condition_def scenario_period_def
        split_scenario_start split_scenario_end scenario_condition_def clause_text_def)

lemma branches_in_template:
  "sublist (eligible_users tp c m) (participation_template tp c ev m)"
  "sublist (event_participants tp c ev m) (participation_template tp c ev m)"
  unfolding participation_template_def
  by (rule sublist_appL [OF sublist_order.order_refl] | rule sublist_appR)+

text \<open>The first item of a timestamp is made of characters of the timestamp.\<close>

lemma timestamp_first_item:
  assumes "is_timestamp s"
  shows "\<exists>d. item0 (split s) = Inr d \<and> list_all timestamp_char d"
proof -
  let ?d = "takeWhile (\<lambda>c. \<not> py_isspace c) (dropWhile py_isspace s)"
  from assms obtain c where "c \<in> set s" "c \<noteq> CHR '' ''" "timestamp_char c"
    by (auto simp: is_timestamp_def list_all_iff)
  then have "\<exists>c\<in>set s. \<not> py_isspace c"
    using timestamp_char_space by blast
  then have "item0 (split s) = Inr ?d"
    by (rule split_item0)
  moreover have "set ?d \<subseteq> set s"
    by (meson set_takeWhileD set_dropWhileD subsetI)
  then have "list_all timestamp_char ?d"
    using assms by (auto simp: is_timestamp_def list_all_iff)
  ultimately show ?thesis by blast
qed

text \<open>
  A text without the first character of a pattern holds no start of the pattern; for the
  pattern \<open> OR \<close>, whose first character is a space, the capital O decides.
\<close>

lemma occ_skip_hd: "p \<notin> set s \<Longrightarrow> occurrences (p # ps) (s @ r) = occurrences (p # ps) r"
  by (induction s) simp_all

lemma occ_skip_OR:
  "CHR ''O'' \<notin> set s \<Longrightarrow> \<not> prefix ''OR '' r \<Longrightarrow>
   occurrences '' OR '' (s @ r) = occurrences '' OR '' r"
proof (induction s)
  case Nil
  then show ?case by simp
next
  case (Cons a s)
  have "\<not> prefix ''OR '' (s @ r)"
  proof (cases s)
    case Nil
    then show ?thesis using Cons.prems by simp
  next
    case (Cons b t)
    then show ?thesis using Cons.prems by simp
  qed
  then have "\<not> prefix '' OR '' (a # s @ r)"
    by simp
  then show ?case
    using Cons by simp
qed

lemma not_timestamp_chars:
  "\<not> timestamp_char (CHR ''c'')" "\<not> timestamp_char (CHR ''O'')" "\<not> timestamp_char (CHR ''l'')"
  by (simp_all add: timestamp_char_def)

lemma timestamp_chars_free:
  assumes "list_all timestamp_char s"
  shows "CHR ''c'' \<notin> set s" "CHR ''O'' \<notin> set s" "CHR ''l'' \<notin> set s"
  using assms not_timestamp_chars unfolding list_all_iff by blast+

lemmas one_period_texts = scenario_table_prefix_def clause_text_def str_5 time_clauses_def

lemma eligible_counts:
  assumes "list_all timestamp_char sd" "list_all timestamp_char ed"
    "list_all timestamp_char s" "list_all timestamp_char e"
  shows "time_clauses (eligible_users scenario_table_prefix (clause_text sd ed s e) 5) = Suc 0"
    "occurrences '' OR '' (eligible_users scenario_table_prefix (clause_text sd ed s e) 5) = 0"
    "occurrences ''level >= 5 '' (eligible_users scenario_table_prefix (clause_text sd ed s e) 5) = Suc 0"
  using assms [THEN timestamp_chars_free(1)] assms [THEN timestamp_chars_free(2)]
    assms [THEN timestamp_chars_free(3)]
  unfolding eligible_users_def one_period_texts
  by (simp_all only: count_steps occ_skip_hd occ_skip_OR
        cong: occurrences_cong prefix_text_cong if_weak_cong)

lemma participants_counts:
  assumes "list_all timestamp_char sd" "list_all timestamp_char ed"
    "list_all timestamp_char s" "list_all timestamp_char e"
  shows "time_clauses
      (event_participants scenario_table_prefix (clause_text sd ed s e) ''spring_event'' 5) = Suc 0"
    "occurrences '' OR ''
      (event_participants scenario_table_prefix (clause_text sd ed s e) ''spring_event'' 5) = 0"
    "occurrences ''level >= 5 ''
      (event_participants scenario_table_prefix (clause_text sd ed s e) ''spring_event'' 5) = Suc 0"
  using assms [THEN timestamp_chars_free(1)] assms [THEN timestamp_chars_free(2)]
    assms [THEN timestamp_chars_free(3)]
  unfolding event_participants_def one_period_texts
  by (simp_all only: count_steps occ_skip_hd occ_skip_OR
        cong: occurrences_cong prefix_text_cong if_weak_cong)

text \<open>
  Claim C8. For every time period whose start and end are timestamps, platform
  \<open>Android\<close>, minimum level 5 and event \<open>spring_event\<close>, \<open>get_event_participation_query\<close>
  returns a query whose eligible-users branch and whose event-participants branch each
  hold exactly one time clause, with no \<open>OR\<close>, and the text \<open>level >= 5\<close> once.
\<close>

theorem one_period_branches:
  assumes "is_timestamp (start_date p)" "is_timestamp (end_date p)"
  shows "\<exists>c. build_time_periods_condition [p] = Inr c
    \<and> get_event_participation_query ''spring_event'' [p] ''Android'' 5
        = Inr (participation_template scenario_table_prefix c ''spring_event'' 5)
    \<and> sublist (eligible_users scenario_table_prefix c 5)
         (participation_template scenario_table_prefix c ''spring_event'' 5)
    \<and> time_clauses (eligible_users scenario_table_prefix c 5) = 1
    \<and> occurrences '' OR '' (eligible_users scenario_table_prefix c 5) = 0
    \<and> occurrences ''level >= 5 '' (eligible_users scenario_table_prefix c 5) = 1
    \<and> sublist (event_participants scenario_table_prefix c ''spring_event'' 5)
         (participation_template scenario_table_prefix c ''spring_event'' 5)
    \<and> time_clauses (event_participants scenario_table_prefix c ''spring_event'' 5) = 1
    \<and> occurrences '' OR '' (event_participants scenario_table_prefix c ''spring_event'' 5) = 0
    \<and> occurrences ''level >= 5 ''
         (event_participants scenario_table_prefix c ''spring_event'' 5) = 1"
proof -
  from timestamp_first_item [OF assms(1)] obtain sd
    where sd: "item0 (split (start_date p)) = Inr sd" "list_all timestamp_char sd"
    by blast
  from timestamp_first_item [OF assms(2)] obtain ed
    where ed: "item0 (split (end_date p)) = Inr ed" "list_all timestamp_char ed"
    by blast
  have s: "list_all timestamp_char (start_date p)" and e: "list_all timestamp_char (end_date p)"
    using assms by (simp_all add: is_timestamp_def)
  let ?c = "clause_text sd ed (start_date p) (end_date p)"
  have build: "build_time_periods_condition [p] = Inr ?c"
    by (simp add: build_time_periods_condition_def condition_def sd ed clause_text_def)
  have query: "get_event_participation_query ''spring_event'' [p] ''Android'' 5
      = Inr (participation_template scenario_table_prefix ?c ''spring_event'' 5)"
    by (simp add: get_event_participation_query_def build lower_Android scenario_table_prefix_def)
  show ?thesis
    using build query eligible_counts [OF sd(2) ed(2) s e] participants_counts [OF sd(2) ed(2) s e]
    by (intro exI [of _ ?c]) (simp only: One_nat_def branches_in_template simp_thms)
qed

theorem one_period_branches_witness:
  "scenario_period = \<lparr>start_date = format_datetime ''2024-01-01'' ''00:00:00'',
                       end_date = format_datetime ''2024-01-07'' ''23:59:59''\<rparr>
 \<and> build_time_periods_condition [scenario_period] = Inr scenario_condition
 \<and> get_event_participation_query ''spring_event'' [scenario_period] ''Android'' 5
     = Inr (participation_template scenario_table_prefix scenario_condition ''spring_event'' 5)
 \<and> time_clauses (eligible_users scenario_table_prefix scenario_condition 5) = 1
 \<and> occurrences ''level >= 5 '' (eligible_users scenario_table_prefix scenario_condition 5) = 1
 \<and> time_clauses
      (event_participants scenario_table_prefix scenario_condition ''spring_event'' 5) = 1
 \<and> occurrences ''level >= 5 ''
      (event_participants scenario_table_prefix scenario_condition ''spring_event'' 5) = 1"
proof -
  have "is_timestamp (start_date scenario_period)" "is_timestamp (end_date scenario_period)"
    by (simp_all add: scenario_period_def is_timestamp_def timestamp_char_def)
  from one_period_branches [OF this] scenario_build show ?thesis
    by (auto simp: scenario_period_def format_datetime_def)
qed

section \<open>The empty list of time periods\<close>

lemma empty_group_r:
  "sublist ''WHERE \<newline>            ()\<newline>            AND r.level >= ''
     (''        WHERE \<newline>'' @ ''            ('' @ [] @ '')\<newline>'' @ ''            AND r.level >= '' @ rest)"
proof -
  have "''        WHERE \<newline>'' @ ''            ('' @ [] @ '')\<newline>'' @ ''            AND r.level >= '' @ rest
      = ''        '' @ ''WHERE \<newline>            ()\<newline>            AND r.level >= '' @ rest"
    by simp
  then show ?thesis
    by (simp only: sublist_appendI)
qed

lemma empty_group_e:
  "sublist ''WHERE \<newline>            ()\<newline>            AND e.event_name = ''
     (''        WHERE \<newline>'' @ ''            ('' @ [] @ '')\<newline>'' @ ''            AND e.event_name = '' @ rest)"
proof -
  have "''        WHERE \<newline>'' @ ''            ('' @ [] @ '')\<newline>'' @ ''            AND e.event_name = '' @ rest
      = ''        '' @ ''WHERE \<newline>            ()\<newline>            AND e.event_name = '' @ rest"
    by simp
  then show ?thesis
    by (simp only: sublist_appendI)
qed

lemma empty_group_i:
  "sublist ''WHERE\<newline>            ()\<newline>            AND i.level >= ''
     (''        WHERE\<newline>'' @ ''            ('' @ [] @ '')\<newline>'' @ ''            AND i.level >= '' @ rest)"
proof -
  have "''        WHERE\<newline>'' @ ''            ('' @ [] @ '')\<newline>'' @ ''            AND i.level >= '' @ rest
      = ''        '' @ ''WHERE\<newline>            ()\<newline>            AND i.level >= '' @ rest"
    by simp
  then show ?thesis
    by (simp only: sublist_appendI)
qed

lemma empty_group_engagement:
  "sublist ''WHERE\<newline>            ()\<newline>            AND event_name = ''
     (''        WHERE\<newline>'' @ ''            ('' @ [] @ '')\<newline>'' @ ''            AND event_name = '' @ rest)"
proof -
  have "''        WHERE\<newline>'' @ ''            ('' @ [] @ '')\<newline>'' @ ''            AND event_name = '' @ rest
      = ''        '' @ ''WHERE\<newline>            ()\<newline>            AND event_name = '' @ rest"
    by simp
  then show ?thesis
    by (simp only: sublist_appendI)
qed

lemma eligible_users_empty:
  "sublist ''WHERE \<newline>            ()\<newline>            AND r.level >= '' (eligible_users tp [] m)"
  unfolding eligible_users_def
  by (rule empty_group_r | rule sublist_appR)+

lemma event_participants_empty:
  "sublist ''WHERE \<newline>            ()\<newline>            AND e.event_name = '' (event_participants tp [] ev m)"
  unfolding event_participants_def
  by (rule empty_group_e | rule sublist_appR)+

lemma iap_metrics_empty:
  "sublist ''WHERE\<newline>            ()\<newline>            AND i.level >= '' (iap_metrics tp [] m)"
  unfolding iap_metrics_def
  by (rule empty_group_i | rule sublist_appR)+

lemma participation_template_empty:
  "sublist ''WHERE \<newline>            ()\<newline>            AND r.level >= '' (participation_template tp [] ev m)"
  "sublist ''WHERE \<newline>            ()\<newline>            AND e.event_name = '' (participation_template tp [] ev m)"
  "sublist ''WHERE\<newline>            ()\<newline>            AND i.level >= '' (participation_template tp [] ev m)"
  unfolding participation_template_def
  by (rule sublist_appL [OF eligible_users_empty] sublist_appL [OF event_participants_empty]
        sublist_appL [OF iap_metrics_empty] | rule sublist_appR)+

lemma engagement_template_empty:
  "sublist ''WHERE\<newline>            ()\<newline>            AND event_name = '' (engagement_template tp [] ev m)"
  unfolding engagement_template_def
  by (rule empty_group_engagement | rule sublist_appR)+

text \<open>
  Claim C10. On the empty list of time periods the Condition Builder raises nothing and
  returns the empty text, so both query builders still return a query, in which each time
  condition is the empty group \<open>()\<close> before the next \<open>AND\<close>.
\<close>

theorem empty_time_periods:
  "build_time_periods_condition [] = Inr []
 \<and> connector_build_time_periods_condition [] = []
 \<and> (\<exists>q. get_event_participation_query event_name [] platform min_level = Inr q
        \<and> sublist ''WHERE \<newline>            ()\<newline>            AND r.level >= '' q
        \<and> sublist ''WHERE \<newline>            ()\<newline>            AND e.event_name = '' q
        \<and> sublist ''WHERE\<newline>            ()\<newline>            AND i.level >= '' q)
 \<and> (\<exists>q. get_event_engagement_query event_name [] platform min_level = Inr q
        \<and> sublist ''WHERE\<newline>            ()\<newline>            AND event_name = '' q)"
  by (simp add: build_time_periods_condition_def connector_build_time_periods_condition_def
        get_event_participation_query_def get_event_engagement_query_def
        participation_template_empty engagement_template_empty)

end
